theory Spec2Isabelle
  imports Complex_Main
begin

section \<open>JavaScript values and arithmetic\<close>

text \<open>
  The geometry code of \<^verbatim>\<open>backend/server.js\<close> computes on JavaScript numbers and, where
  a destructured array is too short, on \<^verbatim>\<open>undefined\<close>. A value is a finite number, one
  of the two infinities, NaN, or undefined. Finite numbers are exact reals: the rounding
  error of double precision, overflow and the sign of zero are not part of the model (a
  zero divisor counts as positive zero).
\<close>

datatype jsval = Fin real | PosInf | NegInf | NaN | Undefined

text \<open>The operator \<^verbatim>\<open>*\<close>. Undefined converts to NaN, and NaN is absorbing.\<close>

fun js_mul :: "jsval \<Rightarrow> jsval \<Rightarrow> jsval" where
  "js_mul (Fin a) (Fin b) = Fin (a * b)"
| "js_mul (Fin a) PosInf = (if 0 < a then PosInf else if a < 0 then NegInf else NaN)"
| "js_mul (Fin a) NegInf = (if 0 < a then NegInf else if a < 0 then PosInf else NaN)"
| "js_mul PosInf (Fin b) = (if 0 < b then PosInf else if b < 0 then NegInf else NaN)"
| "js_mul NegInf (Fin b) = (if 0 < b then NegInf else if b < 0 then PosInf else NaN)"
| "js_mul PosInf PosInf = PosInf"
| "js_mul PosInf NegInf = NegInf"
| "js_mul NegInf PosInf = NegInf"
| "js_mul NegInf NegInf = PosInf"
| "js_mul _ _ = NaN"

text \<open>The operator \<^verbatim>\<open>/\<close>. Division by zero gives an infinity, or NaN for \<^verbatim>\<open>0 / 0\<close>.\<close>

fun js_div :: "jsval \<Rightarrow> jsval \<Rightarrow> jsval" where
  "js_div (Fin a) (Fin b) =
     (if b \<noteq> 0 then Fin (a / b)
      else if 0 < a then PosInf else if a < 0 then NegInf else NaN)"
| "js_div (Fin a) PosInf = Fin 0"
| "js_div (Fin a) NegInf = Fin 0"
| "js_div PosInf (Fin b) = (if 0 \<le> b then PosInf else NegInf)"
| "js_div NegInf (Fin b) = (if 0 \<le> b then NegInf else PosInf)"
| "js_div _ _ = NaN"

text \<open>The binary operator \<^verbatim>\<open>-\<close>.\<close>

fun js_sub :: "jsval \<Rightarrow> jsval \<Rightarrow> jsval" where
  "js_sub (Fin a) (Fin b) = Fin (a - b)"
| "js_sub (Fin a) PosInf = NegInf"
| "js_sub (Fin a) NegInf = PosInf"
| "js_sub PosInf (Fin b) = PosInf"
| "js_sub PosInf NegInf = PosInf"
| "js_sub NegInf (Fin b) = NegInf"
| "js_sub NegInf PosInf = NegInf"
| "js_sub _ _ = NaN"

text \<open>The comparison \<^verbatim>\<open>>\<close>: false as soon as one side is NaN or undefined.\<close>

fun js_gt :: "jsval \<Rightarrow> jsval \<Rightarrow> bool" where
  "js_gt (Fin a) (Fin b) = (b < a)"
| "js_gt (Fin a) NegInf = True"
| "js_gt PosInf (Fin b) = True"
| "js_gt PosInf NegInf = True"
| "js_gt _ _ = False"

text \<open>\<^verbatim>\<open>Math.min\<close> of two arguments: NaN if either argument is NaN.\<close>

fun Math_min :: "jsval \<Rightarrow> jsval \<Rightarrow> jsval" where
  "Math_min NaN _ = NaN"
| "Math_min Undefined _ = NaN"
| "Math_min _ NaN = NaN"
| "Math_min _ Undefined = NaN"
| "Math_min NegInf _ = NegInf"
| "Math_min _ NegInf = NegInf"
| "Math_min PosInf b = b"
| "Math_min a PosInf = a"
| "Math_min (Fin a) (Fin b) = Fin (min a b)"

text \<open>\<^verbatim>\<open>Math.round\<close>: the nearest integer, a tie going up.\<close>

fun Math_round :: "jsval \<Rightarrow> jsval" where
  "Math_round (Fin a) = Fin (of_int \<lfloor>a + 1 / 2\<rfloor>)"
| "Math_round PosInf = PosInf"
| "Math_round NegInf = NegInf"
| "Math_round _ = NaN"

section \<open>Letterbox preprocessing\<close>

text \<open>
  \<^verbatim>\<open>const targetSize = 640\<close> is a constant of the module. The functions below take it
  as their first argument \<open>ts\<close>, so that properties can be stated for every target size;
  the program runs them at \<open>targetSize\<close>.
\<close>

definition targetSize :: real where
  "targetSize = 640"

text \<open>
  The errors of the two stages: the TypeError of reading a property of undefined, the
  \<^verbatim>\<open>Error\<close> thrown by the handler with its message, and the error with which the image
  library rejects an argument, tagged with the name of the rejected parameter.
\<close>

datatype error = TypeError | Error string | SharpError string

text \<open>
  The image library accepts as a side given to \<^verbatim>\<open>resize\<close> a positive integer and as
  a padding given to \<^verbatim>\<open>extend\<close> a non-negative integer; an argument that is undefined
  counts as left out; anything else is rejected with an error. \<^verbatim>\<open>resize\<close> looks at the
  width first, \<^verbatim>\<open>extend\<close> at top, bottom, left and right in this order.
\<close>

definition positiveInteger :: "jsval \<Rightarrow> bool" where
  "positiveInteger v = (case v of Fin a \<Rightarrow> a = of_int \<lfloor>a\<rfloor> \<and> 0 < a | _ \<Rightarrow> False)"

definition nonNegativeInteger :: "jsval \<Rightarrow> bool" where
  "nonNegativeInteger v = (case v of Fin a \<Rightarrow> a = of_int \<lfloor>a\<rfloor> \<and> 0 \<le> a | _ \<Rightarrow> False)"

definition sharp_resize :: "jsval \<Rightarrow> jsval \<Rightarrow> error + unit" where
  "sharp_resize w h =
     (if w \<noteq> Undefined \<and> \<not> positiveInteger w then Inl (SharpError ''width'')
      else if h \<noteq> Undefined \<and> \<not> positiveInteger h then Inl (SharpError ''height'')
      else Inr ())"

definition sharp_extend :: "jsval \<Rightarrow> jsval \<Rightarrow> jsval \<Rightarrow> jsval \<Rightarrow> error + unit" where
  "sharp_extend t b l r =
     (if t \<noteq> Undefined \<and> \<not> nonNegativeInteger t then Inl (SharpError ''top'')
      else if b \<noteq> Undefined \<and> \<not> nonNegativeInteger b then Inl (SharpError ''bottom'')
      else if l \<noteq> Undefined \<and> \<not> nonNegativeInteger l then Inl (SharpError ''left'')
      else if r \<noteq> Undefined \<and> \<not> nonNegativeInteger r then Inl (SharpError ''right'')
      else Inr ())"

text \<open>The metadata read from the image.\<close>

record metadata =
  md_width :: jsval
  md_height :: jsval

text \<open>
  The local constants \<^verbatim>\<open>scale\<close>, and \<^verbatim>\<open>scaledWidth\<close> and \<^verbatim>\<open>scaledHeight\<close>, of
  \<^verbatim>\<open>preprocessImage\<close>.
\<close>

definition imageScale :: "real \<Rightarrow> jsval \<Rightarrow> jsval \<Rightarrow> jsval" where
  "imageScale ts originalWidth originalHeight =
     Math_min (js_div (Fin ts) originalWidth) (js_div (Fin ts) originalHeight)"

definition scaledSide :: "jsval \<Rightarrow> jsval \<Rightarrow> jsval" where
  "scaledSide original scale = Math_round (js_mul original scale)"

text \<open>
  The values at hand when \<^verbatim>\<open>preprocessImage\<close> returns: the scale it returns, the two
  arguments of \<^verbatim>\<open>resize\<close> and the four paddings handed to \<^verbatim>\<open>extend\<close>.
\<close>

record letterbox =
  lb_scale :: jsval
  scaledWidth :: jsval
  scaledHeight :: jsval
  extend_top :: jsval
  extend_bottom :: jsval
  extend_left :: jsval
  extend_right :: jsval

text \<open>
  \<^verbatim>\<open>preprocessImage\<close>, from the outcome of \<^verbatim>\<open>await sharp(imagePath).metadata()\<close>: an
  error when the image cannot be read, which the function lets pass to its caller, or
  the metadata. \<^verbatim>\<open>resize\<close> is called before the argument of \<^verbatim>\<open>extend\<close> is
  evaluated, so a rejected side ends the function before any padding is computed. The
  function has no \<^verbatim>\<open>try\<close>: every error reaches the caller. The pixels of the buffer
  are the image library's and are not modelled.
\<close>

definition preprocessImage :: "real \<Rightarrow> error + metadata \<Rightarrow> error + letterbox" where
  "preprocessImage ts meta =
     (case meta of
        Inl e \<Rightarrow> Inl e
      | Inr m \<Rightarrow>
          (let originalWidth = md_width m;
               originalHeight = md_height m;
               scale = imageScale ts originalWidth originalHeight;
               sw = scaledSide originalWidth scale;
               sh = scaledSide originalHeight scale
           in case sharp_resize sw sh of
                Inl e \<Rightarrow> Inl e
              | Inr _ \<Rightarrow>
                  (let t = Math_round (js_div (js_sub (Fin ts) sh) (Fin 2));
                       b = js_sub (js_sub (Fin ts) sh)
                             (Math_round (js_div (js_sub (Fin ts) sh) (Fin 2)));
                       l = Math_round (js_div (js_sub (Fin ts) sw) (Fin 2));
                       r = js_sub (js_sub (Fin ts) sw)
                             (Math_round (js_div (js_sub (Fin ts) sw) (Fin 2)))
                   in case sharp_extend t b l r of
                        Inl e \<Rightarrow> Inl e
                      | Inr _ \<Rightarrow>
                          Inr \<lparr> lb_scale = scale, scaledWidth = sw, scaledHeight = sh,
                                extend_top = t, extend_bottom = b,
                                extend_left = l, extend_right = r \<rparr>)))"

section \<open>Mapping detections back to the image\<close>

text \<open>
  The objects pushed by \<^verbatim>\<open>processDetections\<close>; the fields are \<^verbatim>\<open>x\<close>, \<^verbatim>\<open>y\<close>,
  \<^verbatim>\<open>width\<close>, \<^verbatim>\<open>height\<close>, \<^verbatim>\<open>confidence\<close> and \<^verbatim>\<open>classId\<close>.
\<close>

record detection =
  det_x :: jsval
  det_y :: jsval
  det_width :: jsval
  det_height :: jsval
  det_confidence :: jsval
  det_classId :: jsval

text \<open>\<^verbatim>\<open>xs.slice(a, b)\<close> for \<open>0 \<le> a \<le> b\<close>: the end is clipped to the length.\<close>

definition slice :: "'a list \<Rightarrow> nat \<Rightarrow> nat \<Rightarrow> 'a list" where
  "slice xs a b = take (b - a) (drop a xs)"

text \<open>Array destructuring: a position past the end of the array yields undefined.\<close>

definition elem :: "jsval list \<Rightarrow> nat \<Rightarrow> jsval" where
  "elem row k = (if k < length row then row ! k else Undefined)"

text \<open>The body of the loop: destructure one row and push it when it is confident.\<close>

definition pushRow ::
  "real \<Rightarrow> jsval list \<Rightarrow> jsval \<Rightarrow> jsval \<Rightarrow> jsval \<Rightarrow> detection list \<Rightarrow> detection list" where
  "pushRow ts row originalWidth originalHeight scale detections =
     (let x_center = elem row 0; y_center = elem row 1;
          width = elem row 2; height = elem row 3;
          confidence = elem row 4; classId = elem row 5
      in if js_gt confidence (Fin (1 / 2)) then
           detections @
           [\<lparr> det_x = js_div (js_mul (js_div x_center (Fin ts)) originalWidth) scale,
              det_y = js_div (js_mul (js_div y_center (Fin ts)) originalHeight) scale,
              det_width = js_div (js_mul (js_div width (Fin ts)) originalWidth) scale,
              det_height = js_div (js_mul (js_div height (Fin ts)) originalHeight) scale,
              det_confidence = confidence,
              det_classId = classId \<rparr>]
         else detections)"

text \<open>\<^verbatim>\<open>for (let i = 0; i < rawData.length; i += 6)\<close>, from index \<open>i\<close> on.\<close>

function processLoop ::
  "real \<Rightarrow> jsval list \<Rightarrow> jsval \<Rightarrow> jsval \<Rightarrow> jsval \<Rightarrow> nat \<Rightarrow> detection list \<Rightarrow> detection list"
  where
  "processLoop ts rawData originalWidth originalHeight scale i detections =
     (if i < length rawData then
        processLoop ts rawData originalWidth originalHeight scale (i + 6)
          (pushRow ts (slice rawData i (i + 6)) originalWidth originalHeight scale detections)
      else detections)"
  by pat_completeness auto
termination
  by (relation "measure (\<lambda>(ts, rawData, w, h, s, i, ds). length rawData - i)") auto

declare processLoop.simps [simp del]

text \<open>
  The model's output tensor: an object whose \<^verbatim>\<open>data\<close> may be missing. The output itself
  may be undefined (\<open>None\<close>). Reading \<^verbatim>\<open>output.data\<close> of an undefined output, and
  \<^verbatim>\<open>Array.from\<close> of a missing \<^verbatim>\<open>data\<close>, throw a TypeError.
\<close>

record tensor =
  data :: "jsval list option"

definition processDetections ::
  "real \<Rightarrow> tensor option \<Rightarrow> jsval \<Rightarrow> jsval \<Rightarrow> jsval \<Rightarrow> error + detection list" where
  "processDetections ts output originalWidth originalHeight scale =
     (case output of
        None \<Rightarrow> Inl TypeError
      | Some t \<Rightarrow>
          (case data t of
             None \<Rightarrow> Inl TypeError
           | Some rawData \<Rightarrow>
               Inr (processLoop ts rawData originalWidth originalHeight scale 0 [])))"

text \<open>
  The mapping stage of the \<^verbatim>\<open>/predict\<close> handler: the guard
  \<^verbatim>\<open>if (!output || !output.data) throw new Error("Invalid Model Output")\<close> and then the
  call of \<^verbatim>\<open>processDetections\<close>.
\<close>

definition predictDetections ::
  "real \<Rightarrow> tensor option \<Rightarrow> jsval \<Rightarrow> jsval \<Rightarrow> jsval \<Rightarrow> error + detection list" where
  "predictDetections ts output originalWidth originalHeight scale =
     (if output = None \<or> Option.bind output data = None
      then Inl (Error ''Invalid Model Output'')
      else processDetections ts output originalWidth originalHeight scale)"

section \<open>The mapper as the specification words it\<close>

text \<open>
  The specification reads the flat output as consecutive rows of six reals in the order
  xCenter, yCenter, width, height, confidence, classId.
\<close>

record rawRow =
  xCenter :: real
  yCenter :: real
  rowWidth :: real
  rowHeight :: real
  rowConfidence :: real
  rowClassId :: real

definition rowAt :: "real list \<Rightarrow> nat \<Rightarrow> rawRow" where
  "rowAt xs k =
     \<lparr> xCenter = xs ! (6 * k), yCenter = xs ! (6 * k + 1),
       rowWidth = xs ! (6 * k + 2), rowHeight = xs ! (6 * k + 3),
       rowConfidence = xs ! (6 * k + 4), rowClassId = xs ! (6 * k + 5) \<rparr>"

definition rawRows :: "real list \<Rightarrow> rawRow list" where
  "rawRows xs = map (rowAt xs) [0..<length xs div 6]"

text \<open>\<open>originalValue = (canvasValue / targetSize) * originalDimension / scale\<close>.\<close>

definition mapped :: "real \<Rightarrow> real \<Rightarrow> real \<Rightarrow> real \<Rightarrow> real" where
  "mapped ts d s v = (v / ts) * d / s"

definition specDetection :: "real \<Rightarrow> real \<Rightarrow> real \<Rightarrow> real \<Rightarrow> rawRow \<Rightarrow> detection" where
  "specDetection ts w h s r =
     \<lparr> det_x = Fin (mapped ts w s (xCenter r)),
       det_y = Fin (mapped ts h s (yCenter r)),
       det_width = Fin (mapped ts w s (rowWidth r)),
       det_height = Fin (mapped ts h s (rowHeight r)),
       det_confidence = Fin (rowConfidence r),
       det_classId = Fin (rowClassId r) \<rparr>"

text \<open>Keep the rows whose confidence is strictly above 0.5, in order, and map each.\<close>

definition specMapper :: "real \<Rightarrow> real list \<Rightarrow> real \<Rightarrow> real \<Rightarrow> real \<Rightarrow> detection list" where
  "specMapper ts xs w h s =
     map (specDetection ts w h s) (filter (\<lambda>r. 1 / 2 < rowConfidence r) (rawRows xs))"

text \<open>
  A trailing row of exactly five values has a confidence and no classId: when it passes
  the filter it is mapped like a complete row, with an undefined classId. A shorter
  trailing row has no confidence and yields nothing.
\<close>

definition trailingRow :: "real \<Rightarrow> real list \<Rightarrow> real \<Rightarrow> real \<Rightarrow> real \<Rightarrow> detection list" where
  "trailingRow ts xs w h s =
     (let n = length xs div 6
      in if length xs mod 6 = 5 \<and> 1 / 2 < xs ! (6 * n + 4)
         then [\<lparr> det_x = Fin (mapped ts w s (xs ! (6 * n))),
                 det_y = Fin (mapped ts h s (xs ! (6 * n + 1))),
                 det_width = Fin (mapped ts w s (xs ! (6 * n + 2))),
                 det_height = Fin (mapped ts h s (xs ! (6 * n + 3))),
                 det_confidence = Fin (xs ! (6 * n + 4)),
                 det_classId = Undefined \<rparr>]
         else [])"

section \<open>Properties of the letterbox geometry\<close>

text \<open>On positive finite dimensions the scale and the scaled sides are finite.\<close>

lemma Math_round_Fin: "Math_round (Fin a) = Fin (real_of_int (round a))"
  by (simp add: round_def)

lemma imageScale_finite:
  fixes w h ts :: real
  assumes "0 < w" "0 < h"
  shows "imageScale ts (Fin w) (Fin h) = Fin (min (ts / w) (ts / h))"
  using assms by (simp add: imageScale_def)

lemma scaledSide_finite: "scaledSide (Fin d) (Fin s) = Fin (real_of_int (round (d * s)))"
  by (simp add: scaledSide_def round_def)

lemma positiveInteger_of_int: "positiveInteger (Fin (real_of_int k)) \<longleftrightarrow> 0 < k"
  by (simp add: positiveInteger_def)

lemma nonNegativeInteger_of_int: "nonNegativeInteger (Fin (real_of_int k)) \<longleftrightarrow> 0 \<le> k"
  by (simp add: nonNegativeInteger_def)

text \<open>A scaled side never rounds to more than an integral target size.\<close>

lemma round_scaled_le:
  fixes w h :: real and ts :: nat
  assumes "0 < w" "0 < h"
  shows "round (w * min (real ts / w) (real ts / h)) \<le> int ts"
proof -
  have "w * min (real ts / w) (real ts / h) \<le> w * (real ts / w)"
    using assms by (intro mult_left_mono) simp_all
  also have "\<dots> = real ts" using assms by simp
  finally have "round (w * min (real ts / w) (real ts / h)) \<le> round (real ts)"
    by (rule round_mono)
  then show ?thesis by simp
qed

text \<open>Half of a non-negative integer, rounded, lies between 0 and that integer.\<close>

lemma round_half_bounds:
  fixes d :: int
  assumes "0 \<le> d"
  shows "0 \<le> round (real_of_int d / 2)" and "round (real_of_int d / 2) \<le> d"
proof -
  have "round (0::real) \<le> round (real_of_int d / 2)"
    using assms by (intro round_mono) simp
  then show "0 \<le> round (real_of_int d / 2)" by simp
  show "round (real_of_int d / 2) \<le> d"
  proof (cases "d = 0")
    case True
    then show ?thesis by simp
  next
    case False
    with assms have "1 \<le> real_of_int d" by simp
    then have "real_of_int d / 2 + 1 / 2 \<le> real_of_int d" by simp
    moreover have "real_of_int (round (real_of_int d / 2)) \<le> real_of_int d / 2 + 1 / 2"
      by (rule of_int_round_le)
    ultimately have "real_of_int (round (real_of_int d / 2)) \<le> real_of_int d" by linarith
    then show ?thesis by simp
  qed
qed

text \<open>The paddings computed for a side that fits the target are accepted.\<close>

lemma paddings_accepted:
  fixes ts :: nat and k :: int
  assumes "k \<le> int ts"
  shows "nonNegativeInteger (Fin (real_of_int (round ((real ts - real_of_int k) / 2))))"
    and "nonNegativeInteger
           (Fin (real ts - real_of_int k - real_of_int (round ((real ts - real_of_int k) / 2))))"
proof -
  define d where "d = int ts - k"
  have d: "real ts - real_of_int k = real_of_int d" by (simp add: d_def)
  have d0: "0 \<le> d" using assms by (simp add: d_def)
  show "nonNegativeInteger (Fin (real_of_int (round ((real ts - real_of_int k) / 2))))"
    unfolding d nonNegativeInteger_of_int using d0 by (rule round_half_bounds)
  have "real_of_int d - real_of_int (round (real_of_int d / 2)) =
      real_of_int (d - round (real_of_int d / 2))" by simp
  moreover have "0 \<le> d - round (real_of_int d / 2)"
    using round_half_bounds(2) [OF d0] by simp
  ultimately show "nonNegativeInteger
      (Fin (real ts - real_of_int k - real_of_int (round ((real ts - real_of_int k) / 2))))"
    unfolding d by (simp only: nonNegativeInteger_of_int)
qed

text \<open>
  When both scaled sides round to at least 1, the two calls accept their arguments and
  the function goes through with the values of the formulas.
\<close>

lemma preprocessImage_accepted:
  fixes w h :: real and ts :: nat
  assumes "0 < w" "0 < h"
    and "1 \<le> round (w * min (real ts / w) (real ts / h))"
    and "1 \<le> round (h * min (real ts / w) (real ts / h))"
  shows "preprocessImage (real ts) (Inr \<lparr> md_width = Fin w, md_height = Fin h \<rparr>) =
     Inr (let scale = min (real ts / w) (real ts / h);
              sw = real_of_int (round (w * scale));
              sh = real_of_int (round (h * scale));
              padTop = real_of_int (round ((real ts - sh) / 2));
              padLeft = real_of_int (round ((real ts - sw) / 2))
          in \<lparr> lb_scale = Fin scale, scaledWidth = Fin sw, scaledHeight = Fin sh,
               extend_top = Fin padTop, extend_bottom = Fin (real ts - sh - padTop),
               extend_left = Fin padLeft, extend_right = Fin (real ts - sw - padLeft) \<rparr>)"
proof -
  define s where "s = min (real ts / w) (real ts / h)"
  define a where "a = round (w * s)"
  define b where "b = round (h * s)"
  have sc: "imageScale (real ts) (Fin w) (Fin h) = Fin s"
    using assms(1,2) by (simp add: imageScale_finite s_def)
  have sw: "scaledSide (Fin w) (Fin s) = Fin (real_of_int a)"
    and sh: "scaledSide (Fin h) (Fin s) = Fin (real_of_int b)"
    by (simp_all add: scaledSide_finite a_def b_def)
  have a1: "1 \<le> a" and b1: "1 \<le> b" using assms(3,4) by (simp_all add: a_def b_def s_def)
  have ats: "a \<le> int ts" unfolding a_def s_def using assms(1,2) by (rule round_scaled_le)
  have "s = min (real ts / h) (real ts / w)" by (simp add: s_def min.commute)
  then have bts: "b \<le> int ts" unfolding b_def using round_scaled_le [OF assms(2,1), of ts] by simp
  have rs: "sharp_resize (Fin (real_of_int a)) (Fin (real_of_int b)) = Inr ()"
    using a1 b1 by (simp add: sharp_resize_def positiveInteger_of_int)
  let ?pt = "real_of_int (round ((real ts - real_of_int b) / 2))"
  let ?pl = "real_of_int (round ((real ts - real_of_int a) / 2))"
  have t: "Math_round (js_div (js_sub (Fin (real ts)) (Fin (real_of_int b))) (Fin 2)) = Fin ?pt"
    and l: "Math_round (js_div (js_sub (Fin (real ts)) (Fin (real_of_int a))) (Fin 2)) = Fin ?pl"
    by (simp_all add: round_def)
  have bt: "js_sub (js_sub (Fin (real ts)) (Fin (real_of_int b))) (Fin ?pt) =
      Fin (real ts - real_of_int b - ?pt)"
    and r: "js_sub (js_sub (Fin (real ts)) (Fin (real_of_int a))) (Fin ?pl) =
      Fin (real ts - real_of_int a - ?pl)"
    by simp_all
  have ext: "sharp_extend (Fin ?pt) (Fin (real ts - real_of_int b - ?pt))
      (Fin ?pl) (Fin (real ts - real_of_int a - ?pl)) = Inr ()"
    using paddings_accepted [OF bts] paddings_accepted [OF ats]
    by (simp add: sharp_extend_def)
  have "preprocessImage (real ts) (Inr \<lparr> md_width = Fin w, md_height = Fin h \<rparr>) =
      Inr \<lparr> lb_scale = Fin s, scaledWidth = Fin (real_of_int a), scaledHeight = Fin (real_of_int b),
            extend_top = Fin ?pt, extend_bottom = Fin (real ts - real_of_int b - ?pt),
            extend_left = Fin ?pl, extend_right = Fin (real ts - real_of_int a - ?pl) \<rparr>"
    unfolding preprocessImage_def
    by (simp only: sum.case Let_def metadata.simps sc sw sh rs t l bt r ext unit.case)
  then show ?thesis by (simp only: Let_def s_def a_def b_def)
qed







section \<open>Images that are rejected\<close>

text \<open>A side of 0 is scaled to 0 or to NaN, never to a positive integer.\<close>

lemma scaledSide_zero:
  "scaledSide (Fin 0) sc \<noteq> Undefined \<and> \<not> positiveInteger (scaledSide (Fin 0) sc)"
  by (cases sc) (simp_all add: scaledSide_def positiveInteger_def)

lemma scaledSide_defined: "scaledSide d sc \<noteq> Undefined"
proof -
  have "Math_round v \<noteq> Undefined" for v by (cases v) simp_all
  then show ?thesis by (simp add: scaledSide_def)
qed

text \<open>
  C9: the preprocessor fails whenever \<open>originalWidth\<close> or \<open>originalHeight\<close> is 0, and when
  the image cannot be decoded; the error goes to the caller and no scale and no
  paddings are produced.
\<close>

theorem preprocessImage_rejects:
  "preprocessImage ts (Inl e) = Inl e
   \<and> (w = Fin 0 \<or> h = Fin 0 \<longrightarrow>
        (\<exists>e'. preprocessImage ts (Inr \<lparr> md_width = w, md_height = h \<rparr>) = Inl e'))"
proof (intro conjI impI)
  show "preprocessImage ts (Inl e) = Inl e" by (simp add: preprocessImage_def)
  assume zero: "w = Fin 0 \<or> h = Fin 0"
  let ?sw = "scaledSide w (imageScale ts w h)"
  let ?sh = "scaledSide h (imageScale ts w h)"
  have "\<exists>e'. sharp_resize ?sw ?sh = Inl e'"
    using zero scaledSide_zero [of "imageScale ts w h"] scaledSide_defined [of w "imageScale ts w h"]
    by (auto simp: sharp_resize_def)
  then obtain e' where "sharp_resize ?sw ?sh = Inl e'" ..
  then have "preprocessImage ts (Inr \<lparr> md_width = w, md_height = h \<rparr>) = Inl e'"
    by (simp add: preprocessImage_def Let_def)
  then show "\<exists>e'. preprocessImage ts (Inr \<lparr> md_width = w, md_height = h \<rparr>) = Inl e'" ..
qed

theorem preprocessImage_rejects_witness:
  "(Fin 0 = Fin 0 \<or> Fin 720 = Fin 0)
   \<and> preprocessImage 640 (Inr \<lparr> md_width = Fin 0, md_height = Fin 720 \<rparr>) =
       Inl (SharpError ''width'')
   \<and> preprocessImage 640 (Inl (Error ''unsupported image format'')) =
       Inl (Error ''unsupported image format'')"
proof -
  have "preprocessImage 640 (Inr \<lparr> md_width = Fin 0, md_height = Fin 720 \<rparr>) =
       Inl (SharpError ''width'')"
    by (simp add: preprocessImage_def imageScale_def scaledSide_def Let_def
        sharp_resize_def positiveInteger_def)
  with preprocessImage_rejects [of 640 "Error ''unsupported image format''" "Fin 0" "Fin 720"]
  show ?thesis by simp
qed

section \<open>The loop on complete rows\<close>

text \<open>
  On a sequence of finite numbers made of complete rows, with non-zero target size and
  scale, the loop appends to its accumulator the mapped rows that pass the filter.
\<close>

lemma slice_map_Fin:
  "slice (map Fin xs) a b = map Fin (slice xs a b)"
  by (simp add: slice_def take_map drop_map)

lemma elem_full_row:
  assumes "6 * j + 6 \<le> length xs" "k < 6"
  shows "elem (slice (map Fin xs) (6 * j) (6 * j + 6)) k = Fin (xs ! (6 * j + k))"
  using assms by (simp add: elem_def slice_def)

lemma pushRow_full_row:
  assumes "6 * j + 6 \<le> length xs" "ts \<noteq> 0" "s \<noteq> 0"
  shows "pushRow ts (slice (map Fin xs) (6 * j) (6 * j + 6)) (Fin w) (Fin h) (Fin s) acc =
     (if 1 / 2 < rowConfidence (rowAt xs j)
      then acc @ [specDetection ts w h s (rowAt xs j)] else acc)"
proof -
  have e: "\<And>k. k < 6 \<Longrightarrow>
      elem (slice (map Fin xs) (6 * j) (6 * j + 6)) k = Fin (xs ! (6 * j + k))"
    using assms(1) by (rule elem_full_row)
  show ?thesis
    using assms(2,3)
    by (simp add: pushRow_def Let_def e rowAt_def specDetection_def mapped_def)
qed

lemma processLoop_rows:
  assumes "length xs = 6 * n" "ts \<noteq> 0" "s \<noteq> 0"
  shows "j \<le> n \<Longrightarrow>
     processLoop ts (map Fin xs) (Fin w) (Fin h) (Fin s) (6 * j) acc =
     acc @ map (specDetection ts w h s)
             (filter (\<lambda>r. 1 / 2 < rowConfidence r) (map (rowAt xs) [j..<n]))"
proof (induction "n - j" arbitrary: j acc)
  case 0
  then have "j = n" by simp
  then show ?case using assms(1) by (subst processLoop.simps) simp
next
  case (Suc d)
  then have lt: "j < n" and d: "d = n - Suc j" and le: "Suc j \<le> n" by simp_all
  have full: "6 * j + 6 \<le> length xs" using lt assms(1) by simp
  have idx: "6 * j < length (map Fin xs)" using lt assms(1) by simp
  have step: "processLoop ts (map Fin xs) (Fin w) (Fin h) (Fin s) (6 * j) acc =
      processLoop ts (map Fin xs) (Fin w) (Fin h) (Fin s) (6 * Suc j)
        (pushRow ts (slice (map Fin xs) (6 * j) (6 * j + 6)) (Fin w) (Fin h) (Fin s) acc)"
    using idx by (subst processLoop.simps) (simp add: add.commute)
  have up: "[j..<n] = j # [Suc j..<n]" using lt by (rule upt_conv_Cons)
  show ?case
    unfolding step Suc.hyps(1)[OF d le] pushRow_full_row[OF full assms(2,3)] up
    by simp
qed

lemma processDetections_rows:
  assumes "length xs mod 6 = 0" "ts \<noteq> 0" "s \<noteq> 0"
  shows "processDetections ts (Some \<lparr> data = Some (map Fin xs) \<rparr>) (Fin w) (Fin h) (Fin s) =
     Inr (specMapper ts xs w h s)"
proof -
  from assms(1) have len: "length xs = 6 * (length xs div 6)" by presburger
  have "processLoop ts (map Fin xs) (Fin w) (Fin h) (Fin s) (6 * 0) [] =
     [] @ map (specDetection ts w h s)
             (filter (\<lambda>r. 1 / 2 < rowConfidence r) (map (rowAt xs) [0..<length xs div 6]))"
    using len assms(2,3) by (intro processLoop_rows) simp_all
  then show ?thesis
    by (simp add: processDetections_def specMapper_def rawRows_def)
qed

lemma rawRows_single: "length ys = 6 \<Longrightarrow> rawRows ys = [rowAt ys 0]"
  by (simp add: rawRows_def)

text \<open>
  C1: for a raw output whose length is a multiple of 6 and a scale above 0 the mapper
  returns exactly the rows whose confidence is strictly greater than 0.5, in input
  order, each geometry field mapped by \<open>(canvasValue / targetSize) * originalDimension / scale\<close>
  and confidence and classId copied; a row of confidence exactly 0.5 is dropped and a
  row of confidence 0.5001 is kept.
\<close>

theorem processDetections_filters_and_maps:
  assumes "0 < s"
  shows "(length xs mod 6 = 0 \<longrightarrow>
      processDetections targetSize (Some \<lparr> data = Some (map Fin xs) \<rparr>) (Fin w) (Fin h) (Fin s) =
      Inr (specMapper targetSize xs w h s))
   \<and> processDetections targetSize
        (Some \<lparr> data = Some (map Fin [xc, yc, bw, bh, 1 / 2, c]) \<rparr>) (Fin w) (Fin h) (Fin s) =
      Inr []
   \<and> processDetections targetSize
        (Some \<lparr> data = Some (map Fin [xc, yc, bw, bh, 5001 / 10000, c]) \<rparr>) (Fin w) (Fin h) (Fin s) =
      Inr [\<lparr> det_x = Fin ((xc / 640) * w / s), det_y = Fin ((yc / 640) * h / s),
             det_width = Fin ((bw / 640) * w / s), det_height = Fin ((bh / 640) * h / s),
             det_confidence = Fin (5001 / 10000), det_classId = Fin c \<rparr>]"
proof (intro conjI impI)
  have ts: "targetSize \<noteq> 0" by (simp add: targetSize_def)
  from assms have s: "s \<noteq> 0" by simp
  show "processDetections targetSize (Some \<lparr> data = Some (map Fin xs) \<rparr>) (Fin w) (Fin h) (Fin s) =
      Inr (specMapper targetSize xs w h s)" if "length xs mod 6 = 0"
    using that ts s by (rule processDetections_rows)
  have "processDetections targetSize
        (Some \<lparr> data = Some (map Fin [xc, yc, bw, bh, 1 / 2, c]) \<rparr>) (Fin w) (Fin h) (Fin s) =
      Inr (specMapper targetSize [xc, yc, bw, bh, 1 / 2, c] w h s)"
    using ts s by (intro processDetections_rows) simp_all
  then show "processDetections targetSize
        (Some \<lparr> data = Some (map Fin [xc, yc, bw, bh, 1 / 2, c]) \<rparr>) (Fin w) (Fin h) (Fin s) =
      Inr []"
    by (simp add: specMapper_def rawRows_single rowAt_def)
  have "processDetections targetSize
        (Some \<lparr> data = Some (map Fin [xc, yc, bw, bh, 5001 / 10000, c]) \<rparr>) (Fin w) (Fin h) (Fin s) =
      Inr (specMapper targetSize [xc, yc, bw, bh, 5001 / 10000, c] w h s)"
    using ts s by (intro processDetections_rows) simp_all
  then show "processDetections targetSize
        (Some \<lparr> data = Some (map Fin [xc, yc, bw, bh, 5001 / 10000, c]) \<rparr>) (Fin w) (Fin h) (Fin s) =
      Inr [\<lparr> det_x = Fin ((xc / 640) * w / s), det_y = Fin ((yc / 640) * h / s),
             det_width = Fin ((bw / 640) * w / s), det_height = Fin ((bh / 640) * h / s),
             det_confidence = Fin (5001 / 10000), det_classId = Fin c \<rparr>]"
    by (simp add: specMapper_def rawRows_single rowAt_def specDetection_def mapped_def
        targetSize_def)
qed

lemma specMapper_example:
  "specMapper 640
     [320, 320, 64, 64, 3 / 4, 2, 100, 100, 10, 10, 1 / 4, 1, 480, 320, 320, 320, 9 / 10, 3]
     1280 720 (1 / 2) =
     [\<lparr> det_x = Fin 1280, det_y = Fin 720, det_width = Fin 256, det_height = Fin 144,
        det_confidence = Fin (3 / 4), det_classId = Fin 2 \<rparr>,
      \<lparr> det_x = Fin 1920, det_y = Fin 720, det_width = Fin 1280, det_height = Fin 720,
        det_confidence = Fin (9 / 10), det_classId = Fin 3 \<rparr>]"
proof -
  have "[0..<3] = [0, 1, 2]" by (simp add: upt_rec)
  then show ?thesis
    by (simp add: specMapper_def rawRows_def rowAt_def specDetection_def mapped_def)
qed

theorem processDetections_filters_and_maps_witness:
  "(0::real) < 1 / 2
   \<and> length [320, 320, 64, 64, 3 / 4, 2, 100, 100, 10, 10, 1 / 4, 1, 480, 320, 320, 320, 9 / 10, 3 :: real] mod 6 = 0
   \<and> processDetections targetSize
       (Some \<lparr> data = Some (map Fin
          [320, 320, 64, 64, 3 / 4, 2, 100, 100, 10, 10, 1 / 4, 1, 480, 320, 320, 320, 9 / 10, 3]) \<rparr>)
       (Fin 1280) (Fin 720) (Fin (1 / 2)) =
     Inr [\<lparr> det_x = Fin 1280, det_y = Fin 720, det_width = Fin 256, det_height = Fin 144,
            det_confidence = Fin (3 / 4), det_classId = Fin 2 \<rparr>,
          \<lparr> det_x = Fin 1920, det_y = Fin 720, det_width = Fin 1280, det_height = Fin 720,
            det_confidence = Fin (9 / 10), det_classId = Fin 3 \<rparr>]"
proof -
  have pos: "(0::real) < 1 / 2" by simp
  have len: "length [320, 320, 64, 64, 3 / 4, 2, 100, 100, 10, 10, 1 / 4, 1, 480, 320, 320, 320, 9 / 10, 3 :: real] mod 6 = 0"
    by simp
  from processDetections_filters_and_maps [OF pos,
      of "[320, 320, 64, 64, 3 / 4, 2, 100, 100, 10, 10, 1 / 4, 1, 480, 320, 320, 320, 9 / 10, 3]"
        1280 720 0 0 0 0 0] len
  have "processDetections targetSize
       (Some \<lparr> data = Some (map Fin
          [320, 320, 64, 64, 3 / 4, 2, 100, 100, 10, 10, 1 / 4, 1, 480, 320, 320, 320, 9 / 10, 3]) \<rparr>)
       (Fin 1280) (Fin 720) (Fin (1 / 2)) =
     Inr (specMapper targetSize
       [320, 320, 64, 64, 3 / 4, 2, 100, 100, 10, 10, 1 / 4, 1, 480, 320, 320, 320, 9 / 10, 3]
       1280 720 (1 / 2))"
    by simp
  then show ?thesis
    using pos len by (simp only: targetSize_def specMapper_example)
qed

section \<open>Sequences of any length\<close>

text \<open>Each turn of the loop pushes at most one detection.\<close>

lemma length_pushRow: "length (pushRow ts row w h s acc) \<le> Suc (length acc)"
  by (simp add: pushRow_def Let_def)

lemma rows_left_step:
  assumes "i < (L::nat)"
  shows "Suc ((L - (i + 6) + 5) div 6) = (L - i + 5) div 6"
proof (cases "i + 6 \<le> L")
  case True
  define m where "m = L - (i + 6)"
  have "L - i + 5 = (m + 5) + 6" using True by (simp add: m_def)
  then have "(L - i + 5) div 6 = Suc ((m + 5) div 6)" by (simp only: div_add_self2)
  then show ?thesis by (simp only: m_def)
next
  case False
  define k where "k = L - i - 1"
  have k: "L - i + 5 = 6 + k" using assms by (simp add: k_def)
  have small: "k < 6" using False by (simp add: k_def)
  from False have z: "L - (i + 6) = 0" by simp
  show ?thesis unfolding z k using small by simp
qed

lemma length_processLoop:
  "length (processLoop ts xs w h s i acc) \<le> length acc + (length xs - i + 5) div 6"
proof (induction ts xs w h s i acc rule: processLoop.induct)
  case (1 ts rawData originalWidth originalHeight scale i detections)
  show ?case
  proof (cases "i < length rawData")
    case True
    let ?acc = "pushRow ts (slice rawData i (i + 6)) originalWidth originalHeight scale detections"
    have "length (processLoop ts rawData originalWidth originalHeight scale (i + 6) ?acc)
        \<le> length ?acc + (length rawData - (i + 6) + 5) div 6"
      using "1.IH" [OF True] .
    moreover have "length ?acc \<le> Suc (length detections)" by (rule length_pushRow)
    moreover have "Suc ((length rawData - (i + 6) + 5) div 6) = (length rawData - i + 5) div 6"
      using True by (rule rows_left_step)
    ultimately show ?thesis
      using True by (subst processLoop.simps) simp
  next
    case False
    then show ?thesis by (subst processLoop.simps) simp
  qed
qed

text \<open>A row of fewer than five values has no confidence and pushes nothing.\<close>

lemma pushRow_short: "length row < 5 \<Longrightarrow> pushRow ts row w h s acc = acc"
  by (simp add: pushRow_def Let_def elem_def)

lemma slice_take_full:
  assumes "6 * j + 6 \<le> m"
  shows "slice (take m xs) (6 * j) (6 * j + 6) = slice xs (6 * j) (6 * j + 6)"
proof -
  have "min 6 (m - 6 * j) = 6" using assms by simp
  then show ?thesis by (simp add: slice_def drop_take)
qed

lemma processLoop_drop_partial:
  assumes "length xs mod 6 < 5"
  shows "j \<le> length xs div 6 \<Longrightarrow>
     processLoop ts xs w h s (6 * j) acc =
     processLoop ts (take (6 * (length xs div 6)) xs) w h s (6 * j) acc"
proof (induction "length xs div 6 - j" arbitrary: j acc)
  case 0
  then have j: "j = length xs div 6" by simp
  have stop: "processLoop ts (take (6 * j) xs) w h s (6 * j) acc = acc"
    by (subst processLoop.simps) simp
  have "processLoop ts xs w h s (6 * j) acc = acc"
  proof (cases "6 * j < length xs")
    case True
    have "length (slice xs (6 * j) (6 * j + 6)) = length xs mod 6"
      using j by (simp add: slice_def) presburger
    then have short: "pushRow ts (slice xs (6 * j) (6 * j + 6)) w h s acc = acc"
      using assms by (intro pushRow_short) simp
    have past: "\<not> 6 * j + 6 < length xs" using j by presburger
    have "processLoop ts xs w h s (6 * j) acc = processLoop ts xs w h s (6 * j + 6) acc"
      using True short by (subst processLoop.simps) simp
    also have "\<dots> = acc" using past by (subst processLoop.simps) simp
    finally show ?thesis .
  next
    case False
    then show ?thesis by (subst processLoop.simps) simp
  qed
  with stop show ?case using j by simp
next
  case (Suc d)
  let ?n = "length xs div 6"
  from Suc have lt: "j < ?n" and d: "d = ?n - Suc j" and le: "Suc j \<le> ?n" by simp_all
  have full: "6 * j + 6 \<le> 6 * ?n" using lt by simp
  have i1: "6 * j < length xs" using lt by presburger
  have i2: "6 * j < length (take (6 * ?n) xs)" using lt by simp
  have suc: "6 * Suc j = 6 * j + 6" by simp
  have st: "slice (take (6 * ?n) xs) (6 * j) (6 * j + 6) = slice xs (6 * j) (6 * j + 6)"
    using full by (rule slice_take_full)
  have "processLoop ts xs w h s (6 * j) acc =
      processLoop ts xs w h s (6 * j + 6) (pushRow ts (slice xs (6 * j) (6 * j + 6)) w h s acc)"
    using i1 by (subst processLoop.simps) simp
  also have "\<dots> = processLoop ts (take (6 * ?n) xs) w h s (6 * j + 6)
      (pushRow ts (slice xs (6 * j) (6 * j + 6)) w h s acc)"
    using Suc.hyps(1) [OF d le] by (simp only: suc)
  also have "\<dots> = processLoop ts (take (6 * ?n) xs) w h s (6 * j) acc"
    using i2 by (subst (2) processLoop.simps) (simp only: st if_True)
  finally show ?case .
qed

text \<open>
  C10: processDetections is total on every numeric sequence of any length \<open>n\<close>: it
  returns a list and throws nothing, the list has at most \<open>\<lceil>n / 6\<rceil>\<close> detections, and
  when the trailing partial row has fewer than five values the result is that of the
  sequence without it.
\<close>

theorem processDetections_total:
  "\<exists>ds. processDetections ts (Some \<lparr> data = Some xs \<rparr>) w h s = Inr ds
     \<and> length ds \<le> (length xs + 5) div 6
     \<and> int (length ds) \<le> \<lceil>real (length xs) / 6\<rceil>
     \<and> (length xs mod 6 < 5 \<longrightarrow>
          processDetections ts (Some \<lparr> data = Some (take (6 * (length xs div 6)) xs) \<rparr>) w h s
          = Inr ds)"
proof -
  let ?ds = "processLoop ts xs w h s 0 []"
  have len: "length ?ds \<le> (length xs + 5) div 6"
    using length_processLoop [of ts xs w h s 0 "[]"] by simp
  have "real ((length xs + 5) div 6) \<le> real_of_int \<lceil>real (length xs) / 6\<rceil>"
  proof -
    have "(length xs + 5) div 6 \<le> nat \<lceil>real (length xs) / 6\<rceil>"
      by (simp add: le_nat_iff le_ceiling_iff)
    then show ?thesis by linarith
  qed
  then have ceil: "int (length ?ds) \<le> \<lceil>real (length xs) / 6\<rceil>"
    using len by linarith
  have part: "processLoop ts (take (6 * (length xs div 6)) xs) w h s 0 [] = ?ds"
    if "length xs mod 6 < 5"
    using processLoop_drop_partial [OF that, of 0 ts w h s "[]"] by simp
  show ?thesis
    using len ceil part by (intro exI [of _ ?ds]) (simp add: processDetections_def)
qed

theorem processDetections_total_witness:
  "length (map Fin [320, 320, 64, 64, 3 / 4, 0, 1]) mod 6 < 5
   \<and> (\<exists>ds. processDetections 640
          (Some \<lparr> data = Some (map Fin [320, 320, 64, 64, 3 / 4, 0, 1]) \<rparr>)
          (Fin 640) (Fin 640) (Fin 1) = Inr ds
        \<and> length ds \<le> (7 + 5) div 6
        \<and> processDetections 640
          (Some \<lparr> data = Some (map Fin [320, 320, 64, 64, 3 / 4, 0]) \<rparr>)
          (Fin 640) (Fin 640) (Fin 1) = Inr ds)"
  using processDetections_total
    [of 640 "map Fin [320, 320, 64, 64, 3 / 4, 0, 1]" "Fin 640" "Fin 640" "Fin 1"]
  by auto

section \<open>Sequences that are not made of complete rows\<close>

text \<open>
  The row read after the last complete one: it is empty or partial, and it pushes a
  detection only when it has five values and its confidence passes the filter.
\<close>

lemma pushRow_trailing:
  assumes "ts \<noteq> 0" "s \<noteq> 0"
  shows "pushRow ts (slice (map Fin xs) (6 * (length xs div 6)) (6 * (length xs div 6) + 6))
           (Fin w) (Fin h) (Fin s) acc =
         acc @ trailingRow ts xs w h s"
proof -
  let ?n = "length xs div 6"
  let ?row = "slice (map Fin xs) (6 * ?n) (6 * ?n + 6)"
  have rest: "length xs - 6 * ?n = length xs mod 6" by (rule minus_mult_div_eq_mod)
  have "length xs mod 6 < 6" by simp
  then have len: "length ?row = length xs mod 6" by (simp add: slice_def rest)
  show ?thesis
  proof (cases "length xs mod 6 = 5")
    case True
    have e: "elem ?row k = Fin (xs ! (6 * ?n + k))" if "k < 5" for k
    proof -
      from that True rest have "6 * ?n + k < length xs" by linarith
      with that True show ?thesis by (simp add: elem_def len) (simp add: slice_def)
    qed
    have u: "elem ?row 5 = Undefined" using True by (simp add: elem_def len)
    have e0: "elem ?row 0 = Fin (xs ! (6 * ?n))" using e [of 0] by simp
    show ?thesis
      using assms True
      by (simp add: pushRow_def Let_def e0 e u trailingRow_def mapped_def)
  next
    case False
    then have "length ?row < 5" using len \<open>length xs mod 6 < 6\<close> by linarith
    then have "pushRow ts ?row (Fin w) (Fin h) (Fin s) acc = acc" by (rule pushRow_short)
    then show ?thesis using False by (simp add: trailingRow_def)
  qed
qed

lemma processLoop_any_length:
  assumes "ts \<noteq> 0" "s \<noteq> 0"
  shows "j \<le> length xs div 6 \<Longrightarrow>
     processLoop ts (map Fin xs) (Fin w) (Fin h) (Fin s) (6 * j) acc =
     acc @ map (specDetection ts w h s)
             (filter (\<lambda>r. 1 / 2 < rowConfidence r) (map (rowAt xs) [j..<length xs div 6]))
         @ trailingRow ts xs w h s"
proof (induction "length xs div 6 - j" arbitrary: j acc)
  case 0
  let ?n = "length xs div 6"
  from 0 have j: "j = ?n" by simp
  have "processLoop ts (map Fin xs) (Fin w) (Fin h) (Fin s) (6 * ?n) acc =
      acc @ trailingRow ts xs w h s"
  proof (cases "6 * ?n < length xs")
    case True
    have past: "\<not> 6 * ?n + 6 < length (map Fin xs)"
    proof -
      have "length xs - 6 * ?n = length xs mod 6" by (rule minus_mult_div_eq_mod)
      moreover have "length xs mod 6 < 6" by simp
      ultimately show ?thesis by simp
    qed
    have "processLoop ts (map Fin xs) (Fin w) (Fin h) (Fin s) (6 * ?n) acc =
        processLoop ts (map Fin xs) (Fin w) (Fin h) (Fin s) (6 * ?n + 6)
          (pushRow ts (slice (map Fin xs) (6 * ?n) (6 * ?n + 6)) (Fin w) (Fin h) (Fin s) acc)"
      using True by (subst processLoop.simps) simp
    also have "\<dots> =
        pushRow ts (slice (map Fin xs) (6 * ?n) (6 * ?n + 6)) (Fin w) (Fin h) (Fin s) acc"
      using past by (subst processLoop.simps) (simp only: if_False)
    also have "\<dots> = acc @ trailingRow ts xs w h s"
      using assms by (rule pushRow_trailing)
    finally show ?thesis .
  next
    case False
    then have full: "length xs mod 6 = 0"
      using minus_mult_div_eq_mod [of "length xs" 6] by linarith
    have "processLoop ts (map Fin xs) (Fin w) (Fin h) (Fin s) (6 * ?n) acc = acc"
      using False by (subst processLoop.simps) simp
    then show ?thesis using full by (simp add: trailingRow_def)
  qed
  then show ?case unfolding j by simp
next
  case (Suc d)
  let ?n = "length xs div 6"
  from Suc have lt: "j < ?n" and d: "d = ?n - Suc j" and le: "Suc j \<le> ?n" by simp_all
  have "6 * ?n \<le> length xs" by simp
  with lt have full: "6 * j + 6 \<le> length xs" by linarith
  then have idx: "6 * j < length (map Fin xs)" by simp
  have step: "processLoop ts (map Fin xs) (Fin w) (Fin h) (Fin s) (6 * j) acc =
      processLoop ts (map Fin xs) (Fin w) (Fin h) (Fin s) (6 * Suc j)
        (pushRow ts (slice (map Fin xs) (6 * j) (6 * j + 6)) (Fin w) (Fin h) (Fin s) acc)"
    using idx by (subst processLoop.simps) (simp add: add.commute)
  have up: "[j..<?n] = j # [Suc j..<?n]" using lt by (rule upt_conv_Cons)
  show ?case
    unfolding step Suc.hyps(1)[OF d le] pushRow_full_row[OF full assms] up
    by simp
qed

text \<open>
  A sequence of seven values: the first row is mapped, the one trailing value is read as
  a row without confidence and dropped.
\<close>

lemma seven_values:
  "processLoop 640 (map Fin [320, 320, 64, 64, 3 / 4, 0, 1]) (Fin 640) (Fin 640) (Fin 1) 0 [] =
     [\<lparr> det_x = Fin 320, det_y = Fin 320, det_width = Fin 64, det_height = Fin 64,
        det_confidence = Fin (3 / 4), det_classId = Fin 0 \<rparr>]"
  by (simp add: processLoop.simps pushRow_def slice_def elem_def Let_def)

text \<open>
  C7 as stated fails: on a raw output of length 7 the guarded call of the handler
  returns a detection list, not the invalid-output error.
\<close>

theorem seven_values_counterexample:
  "length (map Fin [320, 320, 64, 64, 3 / 4, 0, 1]) mod 6 \<noteq> 0
   \<and> predictDetections targetSize
        (Some \<lparr> data = Some (map Fin [320, 320, 64, 64, 3 / 4, 0, 1]) \<rparr>)
        (Fin 640) (Fin 640) (Fin 1) =
      Inr [\<lparr> det_x = Fin 320, det_y = Fin 320, det_width = Fin 64, det_height = Fin 64,
             det_confidence = Fin (3 / 4), det_classId = Fin 0 \<rparr>]"
  using seven_values
  by (simp add: predictDetections_def processDetections_def targetSize_def)

text \<open>
  C7 as amended: for a raw output of finite numbers whose length is not a multiple of 6,
  and a scale above 0, the core does not fail. It returns the detections of the complete
  rows, filtered and mapped in order as for a sequence of complete rows, followed by the
  detection of the trailing partial row, with an undefined classId, when that row has
  exactly five values and a confidence above 0.5; a shorter trailing row yields nothing.
  The core fails exactly when the output or its data is missing, and then with the
  error "Invalid Model Output".
\<close>

theorem predictDetections_any_length:
  assumes "length xs mod 6 \<noteq> 0" "0 < s"
  shows "predictDetections targetSize (Some \<lparr> data = Some (map Fin xs) \<rparr>)
           (Fin w) (Fin h) (Fin s) =
         Inr (specMapper targetSize xs w h s @ trailingRow targetSize xs w h s)
   \<and> ((\<exists>e. predictDetections ts output ow oh sc = Inl e)
        \<longleftrightarrow> (output = None \<or> Option.bind output data = None))
   \<and> (\<forall>e. predictDetections ts output ow oh sc = Inl e \<longrightarrow> e = Error ''Invalid Model Output'')"
proof (intro conjI)
  have ts: "targetSize \<noteq> 0" by (simp add: targetSize_def)
  from assms(2) have s: "s \<noteq> 0" by simp
  have "processLoop targetSize (map Fin xs) (Fin w) (Fin h) (Fin s) (6 * 0) [] =
      [] @ map (specDetection targetSize w h s)
             (filter (\<lambda>r. 1 / 2 < rowConfidence r) (map (rowAt xs) [0..<length xs div 6]))
         @ trailingRow targetSize xs w h s"
    using ts s by (rule processLoop_any_length) simp
  then show "predictDetections targetSize (Some \<lparr> data = Some (map Fin xs) \<rparr>)
           (Fin w) (Fin h) (Fin s) =
         Inr (specMapper targetSize xs w h s @ trailingRow targetSize xs w h s)"
    by (simp add: predictDetections_def processDetections_def specMapper_def rawRows_def)
  show "(\<exists>e. predictDetections ts output ow oh sc = Inl e)
        \<longleftrightarrow> (output = None \<or> Option.bind output data = None)"
    by (cases "output") (auto simp: predictDetections_def processDetections_def split: option.splits)
  show "\<forall>e. predictDetections ts output ow oh sc = Inl e \<longrightarrow> e = Error ''Invalid Model Output''"
    by (cases "output") (auto simp: predictDetections_def processDetections_def split: option.splits)
qed

lemma eleven_values:
  "specMapper 640 [320, 320, 64, 64, 3 / 4, 0, 100, 100, 10, 10, 9 / 10] 640 640 1
     @ trailingRow 640 [320, 320, 64, 64, 3 / 4, 0, 100, 100, 10, 10, 9 / 10] 640 640 1 =
     [\<lparr> det_x = Fin 320, det_y = Fin 320, det_width = Fin 64, det_height = Fin 64,
        det_confidence = Fin (3 / 4), det_classId = Fin 0 \<rparr>,
      \<lparr> det_x = Fin 100, det_y = Fin 100, det_width = Fin 10, det_height = Fin 10,
        det_confidence = Fin (9 / 10), det_classId = Undefined \<rparr>]"
  by (simp add: specMapper_def rawRows_def rowAt_def specDetection_def trailingRow_def
      mapped_def Let_def)

theorem predictDetections_any_length_witness:
  "length [320, 320, 64, 64, 3 / 4, 0, 100, 100, 10, 10, 9 / 10 :: real] mod 6 \<noteq> 0
   \<and> (0::real) < 1
   \<and> predictDetections targetSize
        (Some \<lparr> data = Some (map Fin [320, 320, 64, 64, 3 / 4, 0, 100, 100, 10, 10, 9 / 10]) \<rparr>)
        (Fin 640) (Fin 640) (Fin 1) =
      Inr [\<lparr> det_x = Fin 320, det_y = Fin 320, det_width = Fin 64, det_height = Fin 64,
             det_confidence = Fin (3 / 4), det_classId = Fin 0 \<rparr>,
           \<lparr> det_x = Fin 100, det_y = Fin 100, det_width = Fin 10, det_height = Fin 10,
             det_confidence = Fin (9 / 10), det_classId = Undefined \<rparr>]
   \<and> (\<exists>e. predictDetections 640 (Some \<lparr> data = None \<rparr>) (Fin 640) (Fin 640) (Fin 1) = Inl e)"
proof -
  have pre: "length [320, 320, 64, 64, 3 / 4, 0, 100, 100, 10, 10, 9 / 10 :: real] mod 6 \<noteq> 0"
    "(0::real) < 1" by simp_all
  note t = predictDetections_any_length [OF pre, of 640 640 640 "Some \<lparr> data = None \<rparr>"
      "Fin 640" "Fin 640" "Fin 1"]
  from t have a: "predictDetections targetSize
        (Some \<lparr> data = Some (map Fin [320, 320, 64, 64, 3 / 4, 0, 100, 100, 10, 10, 9 / 10]) \<rparr>)
        (Fin 640) (Fin 640) (Fin 1) =
      Inr (specMapper targetSize [320, 320, 64, 64, 3 / 4, 0, 100, 100, 10, 10, 9 / 10] 640 640 1
        @ trailingRow targetSize [320, 320, 64, 64, 3 / 4, 0, 100, 100, 10, 10, 9 / 10] 640 640 1)"
    by (rule conjunct1)
  from t have b: "\<exists>e. predictDetections 640 (Some \<lparr> data = None \<rparr>) (Fin 640) (Fin 640) (Fin 1)
      = Inl e"
    by simp
  from a have "predictDetections targetSize
        (Some \<lparr> data = Some (map Fin [320, 320, 64, 64, 3 / 4, 0, 100, 100, 10, 10, 9 / 10]) \<rparr>)
        (Fin 640) (Fin 640) (Fin 1) =
      Inr [\<lparr> det_x = Fin 320, det_y = Fin 320, det_width = Fin 64, det_height = Fin 64,
             det_confidence = Fin (3 / 4), det_classId = Fin 0 \<rparr>,
           \<lparr> det_x = Fin 100, det_y = Fin 100, det_width = Fin 10, det_height = Fin 10,
             det_confidence = Fin (9 / 10), det_classId = Undefined \<rparr>]"
    by (simp only: targetSize_def eleven_values)
  with pre b show ?thesis by (intro conjI)
qed

section \<open>Where the mapped box lies\<close>

text \<open>The result for a single complete row.\<close>

lemma processDetections_single_row:
  assumes "ts \<noteq> 0" "s \<noteq> 0"
  shows "processDetections ts
           (Some \<lparr> data = Some [Fin xc, Fin yc, Fin bw, Fin bh, Fin c, Fin k] \<rparr>)
           (Fin w) (Fin h) (Fin s) =
         Inr (if 1 / 2 < c
              then [\<lparr> det_x = Fin (xc / ts * w / s), det_y = Fin (yc / ts * h / s),
                      det_width = Fin (bw / ts * w / s), det_height = Fin (bh / ts * h / s),
                      det_confidence = Fin c, det_classId = Fin k \<rparr>]
              else [])"
proof -
  have "processDetections ts (Some \<lparr> data = Some (map Fin [xc, yc, bw, bh, c, k]) \<rparr>)
           (Fin w) (Fin h) (Fin s) = Inr (specMapper ts [xc, yc, bw, bh, c, k] w h s)"
    using assms by (intro processDetections_rows) simp_all
  then show ?thesis
    by (simp add: specMapper_def rawRows_single rowAt_def specDetection_def mapped_def)
qed

text \<open>The letterbox of the 1280 x 720 image and of the 640 x 640 image.\<close>

lemma letterbox_1280_720:
  "preprocessImage targetSize (Inr \<lparr> md_width = Fin 1280, md_height = Fin 720 \<rparr>) =
     Inr \<lparr> lb_scale = Fin (1 / 2), scaledWidth = Fin 640, scaledHeight = Fin 360,
           extend_top = Fin 140, extend_bottom = Fin 140,
           extend_left = Fin 0, extend_right = Fin 0 \<rparr>"
proof -
  have "preprocessImage (real 640) (Inr \<lparr> md_width = Fin 1280, md_height = Fin 720 \<rparr>) =
     Inr \<lparr> lb_scale = Fin (1 / 2), scaledWidth = Fin 640, scaledHeight = Fin 360,
           extend_top = Fin 140, extend_bottom = Fin 140,
           extend_left = Fin 0, extend_right = Fin 0 \<rparr>"
    by (subst preprocessImage_accepted) (simp_all add: Let_def)
  then show ?thesis by (simp add: targetSize_def)
qed

lemma letterbox_640_640:
  "preprocessImage targetSize (Inr \<lparr> md_width = Fin 640, md_height = Fin 640 \<rparr>) =
     Inr \<lparr> lb_scale = Fin 1, scaledWidth = Fin 640, scaledHeight = Fin 640,
           extend_top = Fin 0, extend_bottom = Fin 0,
           extend_left = Fin 0, extend_right = Fin 0 \<rparr>"
proof -
  have "preprocessImage (real 640) (Inr \<lparr> md_width = Fin 640, md_height = Fin 640 \<rparr>) =
     Inr \<lparr> lb_scale = Fin 1, scaledWidth = Fin 640, scaledHeight = Fin 640,
           extend_top = Fin 0, extend_bottom = Fin 0,
           extend_left = Fin 0, extend_right = Fin 0 \<rparr>"
    by (subst preprocessImage_accepted) (simp_all add: Let_def)
  then show ?thesis by (simp add: targetSize_def)
qed

text \<open>
  C2: a confident row whose box centre is the exact canvas centre is to be mapped to the
  centre of the original image. The code does not do so: the 1280 x 720 image is
  scaled by 0.5, its width to exactly the target size, and the row at the canvas
  centre (320, 320) comes out at (1280, 720), the bottom right corner of the image,
  instead of (640, 360). The boxes are drawn on an overlay of the size of the original
  image, so the point is meant in its pixels.
\<close>

theorem canvas_centre_off_image_centre:
  "preprocessImage targetSize (Inr \<lparr> md_width = Fin 1280, md_height = Fin 720 \<rparr>) =
     Inr \<lparr> lb_scale = Fin (1 / 2), scaledWidth = Fin targetSize, scaledHeight = Fin 360,
           extend_top = Fin 140, extend_bottom = Fin 140,
           extend_left = Fin 0, extend_right = Fin 0 \<rparr>
   \<and> processDetections targetSize
        (Some \<lparr> data = Some (map Fin [targetSize / 2, targetSize / 2, 64, 64, 3 / 4, 0]) \<rparr>)
        (Fin 1280) (Fin 720) (Fin (1 / 2)) =
      Inr [\<lparr> det_x = Fin 1280, det_y = Fin 720, det_width = Fin 256, det_height = Fin 144,
             det_confidence = Fin (3 / 4), det_classId = Fin 0 \<rparr>]
   \<and> Fin 1280 \<noteq> Fin (1280 / 2) \<and> Fin 720 \<noteq> Fin (720 / 2)"
  using letterbox_1280_720
  by (simp add: targetSize_def processDetections_single_row)

text \<open>
  C5: a surviving row whose box lies within the canvas is to give a detection with
  \<open>x + width\<close> and \<open>y + height\<close> within a small tolerance of the original image. The
  code does not do so: for the 1280 x 720 image (scale 0.5) the row with centre
  (480, 320) and size 320 x 320, inside the canvas, comes out with \<open>x = 1920\<close>,
  \<open>width = 1280\<close>, \<open>y = 720\<close> and \<open>height = 720\<close>, so that \<open>x + width\<close> is more than twice
  the image width and \<open>y + height\<close> is twice the image height.
\<close>

theorem mapped_box_leaves_image:
  "preprocessImage targetSize (Inr \<lparr> md_width = Fin 1280, md_height = Fin 720 \<rparr>) =
     Inr \<lparr> lb_scale = Fin (1 / 2), scaledWidth = Fin 640, scaledHeight = Fin 360,
           extend_top = Fin 140, extend_bottom = Fin 140,
           extend_left = Fin 0, extend_right = Fin 0 \<rparr>
   \<and> processDetections targetSize
        (Some \<lparr> data = Some (map Fin [480, 320, 320, 320, 9 / 10, 3]) \<rparr>)
        (Fin 1280) (Fin 720) (Fin (1 / 2)) =
      Inr [\<lparr> det_x = Fin 1920, det_y = Fin 720, det_width = Fin 1280, det_height = Fin 720,
             det_confidence = Fin (9 / 10), det_classId = Fin 3 \<rparr>]
   \<and> (2::real) * 1280 < 1920 + 1280 \<and> (2::real) * 720 \<le> 720 + 720"
  using letterbox_1280_720
  by (simp add: targetSize_def processDetections_single_row)

text \<open>
  C6: the \<open>x\<close> and \<open>y\<close> of a detection are to be the top-left corner of the box, the
  mapped centre minus half the mapped size. The code does not do so: for the
  640 x 640 image (scale 1) the row with centre (320, 320) and size 64 x 64 comes out
  with \<open>x = 320\<close> and \<open>y = 320\<close>, the mapped centre, whereas the corner is at 288.
\<close>

theorem x_y_not_top_left:
  "preprocessImage targetSize (Inr \<lparr> md_width = Fin 640, md_height = Fin 640 \<rparr>) =
     Inr \<lparr> lb_scale = Fin 1, scaledWidth = Fin 640, scaledHeight = Fin 640,
           extend_top = Fin 0, extend_bottom = Fin 0,
           extend_left = Fin 0, extend_right = Fin 0 \<rparr>
   \<and> processDetections targetSize
        (Some \<lparr> data = Some (map Fin [320, 320, 64, 64, 3 / 4, 0]) \<rparr>)
        (Fin 640) (Fin 640) (Fin 1) =
      Inr [\<lparr> det_x = Fin 320, det_y = Fin 320, det_width = Fin 64, det_height = Fin 64,
             det_confidence = Fin (3 / 4), det_classId = Fin 0 \<rparr>]
   \<and> mapped targetSize 640 1 320 - mapped targetSize 640 1 64 / 2 = 288
   \<and> Fin 320 \<noteq> Fin 288"
  using letterbox_640_640
  by (simp add: targetSize_def processDetections_single_row mapped_def)

section \<open>The empty output\<close>

text \<open>
  C8: for an empty raw model output sequence the mapper returns the empty detection
  list and raises no error, called directly or through the guard of the handler.
\<close>

theorem empty_output_no_detections:
  "processDetections ts (Some \<lparr> data = Some [] \<rparr>) w h s = Inr []
   \<and> predictDetections ts (Some \<lparr> data = Some [] \<rparr>) w h s = Inr []"
  by (simp add: processDetections_def predictDetections_def processLoop.simps)

end
